theory Spec2Isabelle
  imports Main "HOL-Library.Multiset" "HOL-Library.List_Lexorder" "HOL-Library.Char_ord"
begin

section \<open>MeasurementFileReader (temperature\_logging/fetch\_data.py)\<close>

text \<open>
  The class \<^verbatim>\<open>MeasurementFileReader\<close> reads per-location CSV files with pandas, merges
  them into one table indexed by date and time, and answers queries on that table. It has
  two mutable attributes, \<^verbatim>\<open>measurement_data\<close> and \<^verbatim>\<open>locations\<close>, both \<^verbatim>\<open>None\<close> after
  construction; \<^verbatim>\<open>data_folder_path\<close> never changes after construction, so the folder it
  names is a parameter of the model.

  Every method is a function from the reader (the two attributes) to a result and the
  reader after the call. An exception is the result \<open>Inl\<close>; the reader returned with it
  is the reader as the exception leaves it.
\<close>

subsection \<open>Data\<close>

text \<open>
  The exceptions that the modelled code paths raise. \<open>FileNotFoundError\<close> and
  \<open>ParserError\<close> come from \<^verbatim>\<open>pd.read_csv\<close>, \<open>ValueError\<close> from \<^verbatim>\<open>pd.concat\<close> of an empty
  list ("No objects to concatenate"), \<open>TypeError\<close> from comparing a date with a text,
  \<open>AttributeError\<close> from an attribute of \<^verbatim>\<open>None\<close>, \<open>IndexError\<close> from \<^verbatim>\<open>index[0]\<close> of an
  empty index, \<open>KeyError\<close> from a label slice that pandas cannot resolve and
  \<open>OutOfBoundsDatetime\<close> from a \<^verbatim>\<open>datetime\<close> that pandas cannot turn into a
  \<^verbatim>\<open>Timestamp\<close>.
\<close>

datatype error =
  FileNotFoundError | ParserError | ValueError | TypeError | AttributeError | IndexError
  | KeyError | OutOfBoundsDatetime

text \<open>
  A \<^verbatim>\<open>datetime\<close> is a point on the time axis, counted in nanoseconds from
  1970-01-01 00:00 as pandas counts. Every \<^verbatim>\<open>datetime\<close> object is truthy in Python,
  whatever its number. pandas holds a date as a \<^verbatim>\<open>Timestamp\<close>, a signed 64-bit count
  whose least value is kept for \<^verbatim>\<open>NaT\<close>: the dates it can hold are those \<open>in_bounds\<close>
  (from 1677-09-21 to 2262-04-11), fewer than Python's \<^verbatim>\<open>datetime\<close> has.
\<close>

type_synonym datetime = int

definition in_bounds :: "datetime \<Rightarrow> bool" where
  "in_bounds t = (- (2 ^ 63) < t \<and> t < 2 ^ 63)"

text \<open>
  One line of a file as \<^verbatim>\<open>pd.read_csv(..., usecols=[1, 2, 3], parse_dates=[0],
  dayfirst=True)\<close> meets it: the text in the first consulted column, the date that the
  day-first parser reads in that text (\<open>None\<close> when it reads none), and the two other
  consulted columns, which the reader never inspects (their type is a parameter). A line
  whose date column is empty or one of pandas' markers of a missing value (which pandas
  reads as \<^verbatim>\<open>NaT\<close>) is not modelled.
\<close>

record 'c csv_line =
  date_text :: string
  date_value :: "datetime option"
  line_cells :: 'c

text \<open>
  A label of an index is a date, or the text of the date column as it stands in the file.
\<close>

datatype label = Stamp datetime | Raw string

text \<open>
  \<^verbatim>\<open>parse_dates=[0]\<close> converts the column as a whole: when every line holds a date that
  a \<^verbatim>\<open>Timestamp\<close> can hold, the column becomes dates; when one line does not, pandas
  raises nothing and leaves the whole column as text.
\<close>

definition parsed :: "'c csv_line \<Rightarrow> bool" where
  "parsed l = (case date_value l of None \<Rightarrow> False | Some t \<Rightarrow> in_bounds t)"

record 'c csv_row =
  csv_index :: label
  csv_cells :: 'c

definition parse_dates :: "'c csv_line list \<Rightarrow> 'c csv_row list" where
  "parse_dates ls =
     map (\<lambda>l. \<lparr>csv_index =
                  (case date_value l of
                     None \<Rightarrow> Raw (date_text l)
                   | Some t \<Rightarrow> if list_all parsed ls then Stamp t else Raw (date_text l)),
                csv_cells = line_cells l\<rparr>) ls"

text \<open>
  A row of a data frame after \<^verbatim>\<open>set_index\<close> on the first column and the added column
  \<^verbatim>\<open>'location'\<close>. A data frame is the list of its rows in order.
\<close>

record 'c row =
  index :: label
  cells :: 'c
  location :: string

type_synonym 'c dataframe = "'c row list"

record 'c reader =
  measurement_data :: "'c dataframe option"
  locations :: "string list option"

text \<open>\<^verbatim>\<open>__init__\<close>: both attributes are \<^verbatim>\<open>None\<close>.\<close>

definition init :: "'c reader" where
  "init = \<lparr>measurement_data = None, locations = None\<rparr>"

text \<open>
  The folder at \<^verbatim>\<open>data_folder_path\<close>: \<open>entries\<close> are the names in it in enumeration
  order, or \<open>None\<close> when the path does not exist or is not a directory; \<open>csv_lines n\<close>
  is what \<^verbatim>\<open>pd.read_csv\<close> meets at the path \<^verbatim>\<open>data_folder_path / n\<close>, an exception (no
  such file, a malformed file) or the lines of the file.
\<close>

record 'c data_folder =
  entries :: "string list option"
  csv_lines :: "string \<Rightarrow> error + 'c csv_line list"

text \<open>The outcome of \<^verbatim>\<open>pd.read_csv\<close> on the path \<^verbatim>\<open>data_folder_path / n\<close>.\<close>

definition read_csv :: "'c data_folder \<Rightarrow> string \<Rightarrow> error + 'c csv_row list" where
  "read_csv d n = (case csv_lines d n of Inl e \<Rightarrow> Inl e | Inr ls \<Rightarrow> Inr (parse_dates ls))"

subsection \<open>File discovery\<close>

text \<open>
  \<^verbatim>\<open>self.data_folder_path.glob('*.csv')\<close>: pathlib yields nothing when the path is not a
  directory, and otherwise the entries whose name ends in \<^verbatim>\<open>.csv\<close>.
\<close>

definition matches_csv :: "string \<Rightarrow> bool" where
  "matches_csv n = (take 4 (rev n) = rev ''.csv'')"

definition glob_csv :: "'c data_folder \<Rightarrow> string list" where
  "glob_csv d = (case entries d of None \<Rightarrow> [] | Some ns \<Rightarrow> filter matches_csv ns)"

text \<open>
  \<^verbatim>\<open>PurePath.stem\<close>: with \<^verbatim>\<open>i = name.rfind('.')\<close>, the stem is \<^verbatim>\<open>name[:i]\<close> if
  \<^verbatim>\<open>0 < i < len(name) - 1\<close> and the whole name otherwise.
\<close>

definition rfind_dot :: "string \<Rightarrow> int" where
  "rfind_dot n =
     (if CHR ''.'' \<in> set n
      then int (length n) - 1 - int (length (takeWhile (\<lambda>c. c \<noteq> CHR ''.'') (rev n)))
      else - 1)"

definition stem :: "string \<Rightarrow> string" where
  "stem n =
     (let i = rfind_dot n
      in if 0 < i \<and> i < int (length n) - 1 then take (nat i) n else n)"

subsection \<open>read\<close>

text \<open>
  \<^verbatim>\<open>read(file_name, location)\<close> stores the parsed frame in \<^verbatim>\<open>self.measurement_data\<close>,
  re-indexes it, adds the location column and returns it. When \<^verbatim>\<open>pd.read_csv\<close> raises,
  nothing has been assigned. The label is \<^verbatim>\<open>location\<close> if it is truthy (neither \<^verbatim>\<open>None\<close>
  nor the empty string), else \<^verbatim>\<open>file_name\<close>.
\<close>

definition label_of :: "string \<Rightarrow> string option \<Rightarrow> string" where
  "label_of file_name loc =
     (case loc of None \<Rightarrow> file_name | Some l \<Rightarrow> if l = [] then file_name else l)"

definition stamp :: "string \<Rightarrow> 'c csv_row \<Rightarrow> 'c row" where
  "stamp l r = \<lparr>index = csv_index r, cells = csv_cells r, location = l\<rparr>"

definition read ::
  "'c data_folder \<Rightarrow> 'c reader \<Rightarrow> string \<Rightarrow> string option
     \<Rightarrow> (error + 'c dataframe) \<times> 'c reader" where
  "read d s file_name loc =
     (case read_csv d (file_name @ ''.csv'') of
        Inl e \<Rightarrow> (Inl e, s)
      | Inr lines \<Rightarrow>
          (let df = map (stamp (label_of file_name loc)) lines
           in (Inr df, s\<lparr>measurement_data := Some df\<rparr>)))"

subsection \<open>batch\_read\<close>

text \<open>
  The list comprehensions \<^verbatim>\<open>[self.read(fn, loc) for ...]\<close>: the files are read in order,
  each call working on the reader the previous one left, and the first exception ends
  the comprehension.
\<close>

fun read_each ::
  "'c data_folder \<Rightarrow> 'c reader \<Rightarrow> (string \<times> string option) list
     \<Rightarrow> (error + 'c dataframe list) \<times> 'c reader" where
  "read_each d s [] = (Inr [], s)"
| "read_each d s ((fn, loc) # rest) =
     (case read d s fn loc of
        (Inl e, s1) \<Rightarrow> (Inl e, s1)
      | (Inr df, s1) \<Rightarrow>
          (case read_each d s1 rest of
             (Inl e, s2) \<Rightarrow> (Inl e, s2)
           | (Inr dfs, s2) \<Rightarrow> (Inr (df # dfs), s2)))"

text \<open>\<^verbatim>\<open>pd.concat\<close> raises \<^verbatim>\<open>ValueError\<close> on an empty list of frames.\<close>

definition pd_concat :: "'c dataframe list \<Rightarrow> error + 'c dataframe" where
  "pd_concat df_lst = (if df_lst = [] then Inl ValueError else Inr (concat df_lst))"

text \<open>
  \<^verbatim>\<open>DataFrame.sort_index()\<close> orders the rows by comparing the labels of the index. Dates
  compare by time, texts as Python strings (by code point, lexicographically), and a date
  does not compare with a text: on an index that holds both, \<^verbatim>\<open>sort_index()\<close> raises
  \<^verbatim>\<open>TypeError\<close>. The code calls it with pandas' default algorithm, which is the
  argument \<open>sort_index\<close> here; what pandas promises of it is \<open>sorts_by_index\<close>.
\<close>

fun stamps :: "label list \<Rightarrow> datetime list option" where
  "stamps [] = Some []"
| "stamps (Stamp t # ls) = (case stamps ls of None \<Rightarrow> None | Some ts \<Rightarrow> Some (t # ts))"
| "stamps (Raw x # ls) = None"

fun texts :: "label list \<Rightarrow> string list option" where
  "texts [] = Some []"
| "texts (Raw x # ls) = (case texts ls of None \<Rightarrow> None | Some xs \<Rightarrow> Some (x # xs))"
| "texts (Stamp t # ls) = None"

definition comparable :: "label list \<Rightarrow> bool" where
  "comparable ls =
     (case stamps ls of
        Some _ \<Rightarrow> True
      | None \<Rightarrow> (case texts ls of Some _ \<Rightarrow> True | None \<Rightarrow> False))"

definition sort_frame ::
  "('c dataframe \<Rightarrow> 'c dataframe) \<Rightarrow> 'c dataframe \<Rightarrow> error + 'c dataframe" where
  "sort_frame sort_index df =
     (if comparable (map index df) then Inr (sort_index df) else Inl TypeError)"

text \<open>
  \<^verbatim>\<open>batch_read(file_names, locations)\<close>. \<^verbatim>\<open>if locations:\<close> holds for a non-empty list
  only: \<^verbatim>\<open>None\<close> and \<^verbatim>\<open>[]\<close> both take the \<^verbatim>\<open>else\<close> branch.
\<close>

definition batch_read ::
  "('c dataframe \<Rightarrow> 'c dataframe) \<Rightarrow> 'c data_folder \<Rightarrow> 'c reader
     \<Rightarrow> string list option \<Rightarrow> string list option
     \<Rightarrow> (error + 'c dataframe) \<times> 'c reader" where
  "batch_read sort_index d s file_names locs =
     (let fns = (case file_names of
                   None \<Rightarrow> map stem (glob_csv d)
                 | Some fs \<Rightarrow> fs);
          (r, s1) =
            (case locs of
               Some (l # ls) \<Rightarrow>
                 (case read_each d s (zip fns (map Some (l # ls))) of
                    (Inl e, s') \<Rightarrow> (Inl e, s')
                  | (Inr df_lst, s') \<Rightarrow> (Inr df_lst, s'\<lparr>locations := Some (l # ls)\<rparr>))
             | _ \<Rightarrow>
                 (case read_each d s (map (\<lambda>fn. (fn, None)) fns) of
                    (Inl e, s') \<Rightarrow> (Inl e, s')
                  | (Inr df_lst, s') \<Rightarrow> (Inr df_lst, s'\<lparr>locations := Some fns\<rparr>)))
      in case r of
           Inl e \<Rightarrow> (Inl e, s1)
         | Inr df_lst \<Rightarrow>
             (case pd_concat df_lst of
                Inl e \<Rightarrow> (Inl e, s1)
              | Inr df \<Rightarrow>
                  (case sort_frame sort_index df of
                     Inl e \<Rightarrow> (Inl e, s1)
                   | Inr t \<Rightarrow> (Inr t, s1\<lparr>measurement_data := Some t\<rparr>))))"

text \<open>
  The contract of the sorting algorithm: on a frame whose labels compare, the rows of the
  frame, all of them and no others, with the labels in ascending order. pandas' default
  \<^verbatim>\<open>kind='quicksort'\<close> promises no more.
\<close>

definition ascending :: "label list \<Rightarrow> bool" where
  "ascending ls =
     (case stamps ls of
        Some ts \<Rightarrow> sorted ts
      | None \<Rightarrow> (case texts ls of Some xs \<Rightarrow> sorted xs | None \<Rightarrow> False))"

definition sorts_by_index :: "('c dataframe \<Rightarrow> 'c dataframe) \<Rightarrow> bool" where
  "sorts_by_index f =
     (\<forall>df. comparable (map index df) \<longrightarrow>
        ascending (map index (f df)) \<and> mset (f df) = mset df)"

subsection \<open>get\_datetime\_limits\<close>

text \<open>\<^verbatim>\<open>index[0]\<close> and \<^verbatim>\<open>index[-1]\<close> of the stored frame.\<close>

definition get_datetime_limits ::
  "'c reader \<Rightarrow> (error + label \<times> label) \<times> 'c reader" where
  "get_datetime_limits s =
     (case measurement_data s of
        None \<Rightarrow> (Inl AttributeError, s)
      | Some [] \<Rightarrow> (Inl IndexError, s)
      | Some (r # rs) \<Rightarrow> (Inr (index r, index (last (r # rs))), s))"

subsection \<open>get\_measurements\<close>

text \<open>
  \<^verbatim>\<open>self.measurement_data.loc[start:end]\<close> is pandas' label slice. pandas turns the two
  labels into positions (\<^verbatim>\<open>Index.get_slice_bound\<close>) and slices by position.

  On an index of dates, \<open>locate\<close>: a label that occurs in the index gives the position
  of its first occurrence (left bound) or the position after its last (right bound),
  provided its occurrences are adjacent; a label that does not occur is located by binary
  search (\<^verbatim>\<open>searchsorted\<close>) when the index is monotonic, and is a \<^verbatim>\<open>KeyError\<close> otherwise.
\<close>

datatype side = Left | Right

definition positions :: "datetime list \<Rightarrow> datetime \<Rightarrow> nat list" where
  "positions idx label = filter (\<lambda>i. idx ! i = label) [0..<length idx]"

definition contiguous :: "nat list \<Rightarrow> bool" where
  "contiguous ps = (case ps of [] \<Rightarrow> True | p # _ \<Rightarrow> ps = [p..<p + length ps])"

text \<open>The insertion point of \<open>label\<close> in an ascending index.\<close>

definition searchsorted :: "datetime list \<Rightarrow> datetime \<Rightarrow> side \<Rightarrow> nat" where
  "searchsorted idx label sd =
     (case sd of
        Left \<Rightarrow> length (takeWhile (\<lambda>t. t < label) idx)
      | Right \<Rightarrow> length (takeWhile (\<lambda>t. t \<le> label) idx))"

definition other_side :: "side \<Rightarrow> side" where
  "other_side sd = (case sd of Left \<Rightarrow> Right | Right \<Rightarrow> Left)"

definition locate :: "datetime list \<Rightarrow> datetime \<Rightarrow> side \<Rightarrow> error + nat" where
  "locate idx label sd =
     (case positions idx label of
        [] \<Rightarrow>
          (if sorted idx then Inr (searchsorted idx label sd)
           else if sorted (rev idx)
           then Inr (length idx - searchsorted (rev idx) label (other_side sd))
           else Inl KeyError)
      | p # ps \<Rightarrow>
          (if contiguous (p # ps)
           then Inr (case sd of Left \<Rightarrow> p | Right \<Rightarrow> last (p # ps) + 1)
           else Inl KeyError))"

text \<open>
  On an index of dates pandas first turns the label into a \<^verbatim>\<open>Timestamp\<close>, which raises
  \<^verbatim>\<open>OutOfBoundsDatetime\<close> for a \<^verbatim>\<open>datetime\<close> that a \<^verbatim>\<open>Timestamp\<close> cannot hold. On an index
  of texts a \<^verbatim>\<open>datetime\<close> never occurs; the binary search then compares it with a text
  and raises \<^verbatim>\<open>TypeError\<close> when the index is monotonic, and the label is a \<^verbatim>\<open>KeyError\<close>
  when it is not. An index that holds both dates and texts is never stored (\<open>read\<close>
  stores the frame of one file, \<open>batch_read\<close> a frame that was sorted).
\<close>

definition get_slice_bound :: "label list \<Rightarrow> datetime \<Rightarrow> side \<Rightarrow> error + nat" where
  "get_slice_bound idx label sd =
     (case stamps idx of
        Some ts \<Rightarrow> if in_bounds label then locate ts label sd else Inl OutOfBoundsDatetime
      | None \<Rightarrow>
          (case texts idx of
             Some xs \<Rightarrow> if sorted xs \<or> sorted (rev xs) then Inl TypeError else Inl KeyError
           | None \<Rightarrow> Inl KeyError))"

definition loc_slice :: "'c dataframe \<Rightarrow> datetime \<Rightarrow> datetime \<Rightarrow> error + 'c dataframe" where
  "loc_slice df start stop =
     (case get_slice_bound (map index df) start Left of
        Inl e \<Rightarrow> Inl e
      | Inr lo \<Rightarrow>
          (case get_slice_bound (map index df) stop Right of
             Inl e \<Rightarrow> Inl e
           | Inr hi \<Rightarrow> Inr (take (hi - lo) (drop lo df))))"

text \<open>\<^verbatim>\<open>df[df.location.isin(locations)]\<close>\<close>

definition isin_locations :: "string list \<Rightarrow> 'c dataframe \<Rightarrow> 'c dataframe" where
  "isin_locations ls df = filter (\<lambda>r. location r \<in> set ls) df"

text \<open>
  \<^verbatim>\<open>get_measurements(start, end, locations)\<close>; the result is \<open>None\<close> when the method
  returns the attribute \<^verbatim>\<open>measurement_data\<close> while it is still \<^verbatim>\<open>None\<close>. \<^verbatim>\<open>if start and end:\<close>
  holds when both are \<^verbatim>\<open>datetime\<close> objects, \<^verbatim>\<open>if locations:\<close> for a non-empty list.
\<close>

definition get_measurements ::
  "'c reader \<Rightarrow> datetime option \<Rightarrow> datetime option \<Rightarrow> string list option
     \<Rightarrow> (error + 'c dataframe option) \<times> 'c reader" where
  "get_measurements s start stop locs =
     (let r =
        (case (start, stop) of
           (Some a, Some b) \<Rightarrow>
             (case measurement_data s of
                None \<Rightarrow> Inl AttributeError
              | Some t \<Rightarrow>
                  (case loc_slice t a b of Inl e \<Rightarrow> Inl e | Inr df \<Rightarrow> Inr (Some df)))
         | _ \<Rightarrow> Inr (measurement_data s))
      in case r of
           Inl e \<Rightarrow> (Inl e, s)
         | Inr df \<Rightarrow>
             (case locs of
                Some (l # ls) \<Rightarrow>
                  (case df of
                     None \<Rightarrow> (Inl AttributeError, s)
                   | Some t \<Rightarrow> (Inr (Some (isin_locations (l # ls) t)), s))
              | _ \<Rightarrow> (Inr df, s)))"

subsection \<open>Vocabulary for the properties\<close>

text \<open>
  The definitions below are not part of the program; the theorems use them to say what
  \<open>batch_read\<close> reads and stores.

  \<open>readable d fn\<close>: \<^verbatim>\<open>pd.read_csv\<close> returns for the file \<^verbatim>\<open>fn.csv\<close>.
  \<open>frame_of d (fn, loc)\<close>: the frame that \<open>read\<close> returns for a readable file.
\<close>

definition readable :: "'c data_folder \<Rightarrow> string \<Rightarrow> bool" where
  "readable d file_name =
     (case read_csv d (file_name @ ''.csv'') of Inl _ \<Rightarrow> False | Inr _ \<Rightarrow> True)"

definition frame_of :: "'c data_folder \<Rightarrow> string \<times> string option \<Rightarrow> 'c dataframe" where
  "frame_of d p =
     (case read_csv d (fst p @ ''.csv'') of
        Inl _ \<Rightarrow> []
      | Inr lines \<Rightarrow> map (stamp (label_of (fst p) (snd p))) lines)"

text \<open>
  \<open>dated d fn\<close>: the file parses and every line of it holds a date that pandas can
  hold, so that its index is dates. \<open>has_rows d m fn\<close>: the file is well-formed in that
  sense and has \<open>m\<close> lines of data.
\<close>

definition dated :: "'c data_folder \<Rightarrow> string \<Rightarrow> bool" where
  "dated d file_name =
     (case csv_lines d (file_name @ ''.csv'') of
        Inl _ \<Rightarrow> False
      | Inr ls \<Rightarrow> list_all parsed ls)"

definition has_rows :: "'c data_folder \<Rightarrow> nat \<Rightarrow> string \<Rightarrow> bool" where
  "has_rows d m file_name =
     (case csv_lines d (file_name @ ''.csv'') of
        Inl _ \<Rightarrow> False
      | Inr ls \<Rightarrow> list_all parsed ls \<and> length ls = m)"

text \<open>
  The file names \<open>batch_read\<close> works on, the (file name, location) pairs it passes to
  \<open>read\<close> in order, and the location list it records when no read fails.
\<close>

definition sources :: "'c data_folder \<Rightarrow> string list option \<Rightarrow> string list" where
  "sources d file_names =
     (case file_names of None \<Rightarrow> map stem (glob_csv d) | Some fs \<Rightarrow> fs)"

definition pairing ::
  "string list \<Rightarrow> string list option \<Rightarrow> (string \<times> string option) list" where
  "pairing fns locs =
     (case locs of
        Some (l # ls) \<Rightarrow> zip fns (map Some (l # ls))
      | _ \<Rightarrow> map (\<lambda>fn. (fn, None)) fns)"

definition recorded_locations :: "string list \<Rightarrow> string list option \<Rightarrow> string list" where
  "recorded_locations fns locs = (case locs of Some (l # ls) \<Rightarrow> l # ls | _ \<Rightarrow> fns)"

text \<open>
  The value of \<^verbatim>\<open>measurement_data\<close> after \<open>read\<close> has returned for each of \<open>ps\<close> in
  turn: the frame of the last one, or the old value when there is none.
\<close>

definition last_frame ::
  "'c data_folder \<Rightarrow> 'c reader \<Rightarrow> (string \<times> string option) list
     \<Rightarrow> 'c dataframe option" where
  "last_frame d s ps =
     (case ps of [] \<Rightarrow> measurement_data s | _ \<Rightarrow> Some (frame_of d (last ps)))"

text \<open>
  The date of a row with a date label, and the rows whose date lies in a closed range.
\<close>

definition dated_within :: "datetime \<Rightarrow> datetime \<Rightarrow> 'c row \<Rightarrow> bool" where
  "dated_within a b r = (case index r of Stamp t \<Rightarrow> a \<le> t \<and> t \<le> b | Raw _ \<Rightarrow> False)"

text \<open>
  One sorting algorithm within the contract, insertion sort on the dates or on the texts,
  to run the model on examples.
\<close>

definition date_key :: "label \<Rightarrow> datetime" where
  "date_key l = (case l of Stamp t \<Rightarrow> t | Raw _ \<Rightarrow> 0)"

definition text_key :: "label \<Rightarrow> string" where
  "text_key l = (case l of Stamp _ \<Rightarrow> [] | Raw x \<Rightarrow> x)"

definition insertion_sort_index :: "'c dataframe \<Rightarrow> 'c dataframe" where
  "insertion_sort_index df =
     (case stamps (map index df) of
        Some _ \<Rightarrow> sort_key (\<lambda>r. date_key (index r)) df
      | None \<Rightarrow> sort_key (\<lambda>r. text_key (index r)) df)"

subsection \<open>Example folders\<close>

text \<open>Four dates of 2023, at 08:00 or 09:00, and two bounds for queries.\<close>

definition jan5_0800 :: datetime where "jan5_0800 = 1672905600000000000"
definition feb1_0000 :: datetime where "feb1_0000 = 1675209600000000000"
definition feb3_0800 :: datetime where "feb3_0800 = 1675411200000000000"
definition feb3_0900 :: datetime where "feb3_0900 = 1675414800000000000"
definition feb4_0800 :: datetime where "feb4_0800 = 1675497600000000000"

text \<open>The first of January of the year 3000, a \<^verbatim>\<open>datetime\<close> that is no \<^verbatim>\<open>Timestamp\<close>.\<close>

definition year_3000 :: datetime where "year_3000 = 32503680000000000000"

text \<open>
  A folder with three measurement files and one other file; the cells are two readings in
  tenths. \<^verbatim>\<open>C.csv\<close> repeats the line of \<^verbatim>\<open>B.csv\<close>. Any other name is a missing file.
\<close>

definition site_folder :: "(int \<times> int) data_folder" where
  "site_folder =
     \<lparr>entries = Some [''A.csv'', ''notes.txt'', ''B.csv'', ''C.csv''],
      csv_lines = (\<lambda>n.
        if n = ''A.csv'' then
          Inr [\<lparr>date_text = ''03/02/2023 08:00'', date_value = Some feb3_0800,
                line_cells = (105, 40)\<rparr>,
               \<lparr>date_text = ''04/02/2023 08:00'', date_value = Some feb4_0800,
                line_cells = (112, 41)\<rparr>]
        else if n = ''B.csv'' \<or> n = ''C.csv'' then
          Inr [\<lparr>date_text = ''03/02/2023 09:00'', date_value = Some feb3_0900,
                line_cells = (98, 38)\<rparr>]
        else Inl FileNotFoundError)\<rparr>"

text \<open>
  A folder with one file of three lines, the last of which has the word \<^verbatim>\<open>error\<close> where
  the date should be.
\<close>

definition log_folder :: "(int \<times> int) data_folder" where
  "log_folder =
     \<lparr>entries = Some [''T.csv''],
      csv_lines = (\<lambda>n.
        if n = ''T.csv'' then
          Inr [\<lparr>date_text = ''05/01/2023 08:00'', date_value = Some jan5_0800,
                line_cells = (101, 39)\<rparr>,
               \<lparr>date_text = ''03/02/2023 08:00'', date_value = Some feb3_0800,
                line_cells = (105, 40)\<rparr>,
               \<lparr>date_text = ''error'', date_value = None, line_cells = (0, 0)\<rparr>]
        else Inl FileNotFoundError)\<rparr>"

definition log_table :: "(int \<times> int) dataframe" where
  "log_table =
     [\<lparr>index = Raw ''03/02/2023 08:00'', cells = (105, 40), location = ''T''\<rparr>,
      \<lparr>index = Raw ''05/01/2023 08:00'', cells = (101, 39), location = ''T''\<rparr>,
      \<lparr>index = Raw ''error'', cells = (0, 0), location = ''T''\<rparr>]"

definition log_reader :: "(int \<times> int) reader" where
  "log_reader = \<lparr>measurement_data = Some log_table, locations = Some [''T'']\<rparr>"

text \<open>A folder that exists and holds no CSV file, and a path that is no folder.\<close>

definition bare_folder :: "(int \<times> int) data_folder" where
  "bare_folder =
     \<lparr>entries = Some [''notes.txt''], csv_lines = (\<lambda>n. Inl FileNotFoundError)\<rparr>"

definition missing_folder :: "(int \<times> int) data_folder" where
  "missing_folder = \<lparr>entries = None, csv_lines = (\<lambda>n. Inl FileNotFoundError)\<rparr>"

definition row_A1 :: "(int \<times> int) row" where
  "row_A1 = \<lparr>index = Stamp feb3_0800, cells = (105, 40), location = ''A''\<rparr>"

definition row_A2 :: "(int \<times> int) row" where
  "row_A2 = \<lparr>index = Stamp feb4_0800, cells = (112, 41), location = ''A''\<rparr>"

definition row_B1 :: "(int \<times> int) row" where
  "row_B1 = \<lparr>index = Stamp feb3_0900, cells = (98, 38), location = ''B''\<rparr>"

text \<open>
  The table and the reader after loading the whole of \<open>site_folder\<close> with the locations
  \<^verbatim>\<open>['siteA', 'siteB', 'siteC']\<close>.
\<close>

definition site_table :: "(int \<times> int) dataframe" where
  "site_table =
     [\<lparr>index = Stamp feb3_0800, cells = (105, 40), location = ''siteA''\<rparr>,
      \<lparr>index = Stamp feb3_0900, cells = (98, 38), location = ''siteB''\<rparr>,
      \<lparr>index = Stamp feb3_0900, cells = (98, 38), location = ''siteC''\<rparr>,
      \<lparr>index = Stamp feb4_0800, cells = (112, 41), location = ''siteA''\<rparr>]"

definition site_reader :: "(int \<times> int) reader" where
  "site_reader =
     \<lparr>measurement_data = Some site_table,
      locations = Some [''siteA'', ''siteB'', ''siteC'']\<rparr>"

section \<open>Properties\<close>

subsection \<open>Reading the files in turn\<close>

text \<open>
  \<open>read\<close> on a readable file returns its frame and stores it; on any other file it
  raises and leaves the reader alone.
\<close>

lemma read_readable:
  "readable d fn \<Longrightarrow> read d s fn loc = (Inr (frame_of d (fn, loc)), s\<lparr>measurement_data := Some (frame_of d (fn, loc))\<rparr>)"
  by (simp add: readable_def read_def frame_of_def Let_def split: sum.splits)

lemma read_unreadable:
  "\<not> readable d fn \<Longrightarrow> \<exists>e. read d s fn loc = (Inl e, s)"
  by (simp add: readable_def read_def split: sum.splits)

lemma read_each_ok:
  "list_all (\<lambda>p. readable d (fst p)) ps \<Longrightarrow>
   read_each d s ps = (Inr (map (frame_of d) ps), s\<lparr>measurement_data := last_frame d s ps\<rparr>)"
proof (induction ps arbitrary: s)
  case Nil
  show ?case by (simp add: last_frame_def)
next
  case (Cons p ps)
  obtain fn loc where p: "p = (fn, loc)" by (cases p)
  from Cons.prems have r: "readable d fn" and rest: "list_all (\<lambda>p. readable d (fst p)) ps"
    by (simp_all add: p)
  show ?case
    using Cons.IH [OF rest] read_readable [OF r]
    by (cases ps) (simp_all add: p last_frame_def)
qed

lemma read_each_fail:
  "\<not> list_all (\<lambda>p. readable d (fst p)) ps \<Longrightarrow>
   \<exists>e. read_each d s ps =
     (Inl e, s\<lparr>measurement_data := last_frame d s (takeWhile (\<lambda>p. readable d (fst p)) ps)\<rparr>)"
proof (induction ps arbitrary: s)
  case Nil
  then show ?case by simp
next
  case (Cons p ps)
  obtain fn loc where p: "p = (fn, loc)" by (cases p)
  show ?case
  proof (cases "readable d fn")
    case False
    from read_unreadable [OF False] obtain e where "read d s fn loc = (Inl e, s)" by blast
    then show ?thesis using False by (simp add: p last_frame_def)
  next
    case True
    with Cons.prems have rest: "\<not> list_all (\<lambda>p. readable d (fst p)) ps" by (simp add: p)
    let ?s1 = "s\<lparr>measurement_data := Some (frame_of d (fn, loc))\<rparr>"
    from Cons.IH [OF rest, of ?s1] obtain e where
      e: "read_each d ?s1 ps = (Inl e, ?s1\<lparr>measurement_data := last_frame d ?s1 (takeWhile (\<lambda>p. readable d (fst p)) ps)\<rparr>)"
      by blast
    show ?thesis
      using e read_readable [OF True, of s loc] True
      by (cases "takeWhile (\<lambda>p. readable d (fst p)) ps") (auto simp add: p last_frame_def)
  qed
qed

lemma batch_read_unfold:
  "batch_read srt d s file_names locs =
     (case read_each d s (pairing (sources d file_names) locs) of
        (Inl e, s') \<Rightarrow> (Inl e, s')
      | (Inr df_lst, s') \<Rightarrow>
          (case pd_concat df_lst of
             Inl e \<Rightarrow>
               (Inl e, s'\<lparr>locations := Some (recorded_locations (sources d file_names) locs)\<rparr>)
           | Inr df \<Rightarrow>
               (case sort_frame srt df of
                  Inl e \<Rightarrow>
                    (Inl e,
                     s'\<lparr>locations := Some (recorded_locations (sources d file_names) locs)\<rparr>)
                | Inr t \<Rightarrow>
                    (Inr t,
                     s'\<lparr>locations := Some (recorded_locations (sources d file_names) locs),
                        measurement_data := Some t\<rparr>))))"
  by (simp add: batch_read_def pairing_def sources_def recorded_locations_def Let_def
           split: option.splits list.splits prod.splits sum.splits)

subsection \<open>Dates and texts in an index\<close>

lemma stamps_map_Stamp: "stamps (map Stamp ts) = Some ts"
  by (induction ts) simp_all

lemma texts_map_Raw: "texts (map Raw xs) = Some xs"
  by (induction xs) simp_all

lemma stamps_SomeD: "stamps ls = Some ts \<Longrightarrow> ls = map Stamp ts"
proof (induction ls arbitrary: ts)
  case Nil
  then show ?case by simp
next
  case (Cons l ls)
  then show ?case
    by (cases l) (auto split: option.splits)
qed

lemma texts_SomeD: "texts ls = Some xs \<Longrightarrow> ls = map Raw xs"
proof (induction ls arbitrary: xs)
  case Nil
  then show ?case by simp
next
  case (Cons l ls)
  then show ?case
    by (cases l) (auto split: option.splits)
qed

lemma stamps_Some_iff: "stamps ls = Some ts \<longleftrightarrow> ls = map Stamp ts"
  using stamps_SomeD stamps_map_Stamp by blast

lemma texts_Some_iff: "texts ls = Some xs \<longleftrightarrow> ls = map Raw xs"
  using texts_SomeD texts_map_Raw by blast

lemma stamps_all_dates:
  "(\<And>l. l \<in> set ls \<Longrightarrow> \<exists>t. l = Stamp t) \<Longrightarrow> stamps ls = Some (map date_key ls)"
proof (induction ls)
  case Nil
  show ?case by simp
next
  case (Cons l ls)
  from Cons.prems [of l] obtain t where "l = Stamp t" by auto
  moreover from Cons have "stamps ls = Some (map date_key ls)" by simp
  ultimately show ?case by (simp add: date_key_def)
qed

lemma texts_all_texts:
  "(\<And>l. l \<in> set ls \<Longrightarrow> \<exists>x. l = Raw x) \<Longrightarrow> texts ls = Some (map text_key ls)"
proof (induction ls)
  case Nil
  show ?case by simp
next
  case (Cons l ls)
  from Cons.prems [of l] obtain x where "l = Raw x" by auto
  moreover from Cons have "texts ls = Some (map text_key ls)" by simp
  ultimately show ?case by (simp add: text_key_def)
qed

lemma stamps_texts_Nil: "stamps ls = Some ts \<Longrightarrow> texts ls = Some xs \<Longrightarrow> ls = []"
  by (cases ls; cases ts; cases xs) (auto simp add: stamps_Some_iff texts_Some_iff)

text \<open>The insertion sort is within the contract.\<close>

lemma sorts_by_index_insertion_sort: "sorts_by_index insertion_sort_index"
  unfolding sorts_by_index_def
proof (intro allI impI)
  fix df :: "'a dataframe"
  assume cmp: "comparable (map index df)"
  show "ascending (map index (insertion_sort_index df)) \<and>
        mset (insertion_sort_index df) = mset df"
  proof (cases "stamps (map index df)")
    case (Some ts)
    let ?r = "sort_key (\<lambda>r. date_key (index r)) df"
    have r: "insertion_sort_index df = ?r"
      by (simp add: insertion_sort_index_def Some)
    from Some have "map index df = map Stamp ts"
      by (simp add: stamps_Some_iff)
    then have "\<exists>t. l = Stamp t" if "l \<in> set (map index df)" for l
      using that by auto
    then have "\<exists>t. l = Stamp t" if "l \<in> set (map index ?r)" for l
      using that by simp
    then have "stamps (map index ?r) = Some (map date_key (map index ?r))"
      by (rule stamps_all_dates)
    moreover have "sorted (map date_key (map index ?r))"
      using sorted_sort_key [of "\<lambda>r. date_key (index r)" df] by (simp add: comp_def)
    ultimately show ?thesis
      by (simp add: r ascending_def)
  next
    case None
    let ?r = "sort_key (\<lambda>r. text_key (index r)) df"
    have r: "insertion_sort_index df = ?r"
      by (simp add: insertion_sort_index_def None)
    from None cmp obtain xs where xs: "texts (map index df) = Some xs"
      by (auto simp add: comparable_def split: option.splits)
    then have raw: "map index df = map Raw xs"
      by (simp add: texts_Some_iff)
    from None have "df \<noteq> []"
      by auto
    then have ne: "?r \<noteq> []"
      by (metis length_sort list.size(3) length_0_conv)
    from raw have "\<exists>x. l = Raw x" if "l \<in> set (map index df)" for l
      using that by auto
    then have allraw: "\<exists>x. l = Raw x" if "l \<in> set (map index ?r)" for l
      using that by simp
    then have t: "texts (map index ?r) = Some (map text_key (map index ?r))"
      by (rule texts_all_texts)
    have "stamps (map index ?r) = None"
    proof (cases "stamps (map index ?r)")
      case (Some ts)
      from stamps_texts_Nil [OF Some t] ne show ?thesis by simp
    qed simp
    moreover have "sorted (map text_key (map index ?r))"
      using sorted_sort_key [of "\<lambda>r. text_key (index r)" df] by (simp add: comp_def)
    ultimately show ?thesis
      by (simp add: r ascending_def t)
  qed
qed

subsection \<open>The label slice on an ascending index of dates\<close>

text \<open>
  On an ascending index the occurrences of a label are the positions from its left
  insertion point up to its right insertion point, so both bounds are found, and the
  slice between them holds exactly the rows with a date in the closed range.
\<close>

lemma positions_Nil: "positions [] a = []"
  by (simp add: positions_def)

lemma positions_Cons:
  "positions (x # xs) a = (if x = a then [0] else []) @ map Suc (positions xs a)"
proof -
  have "[0..<length (x # xs)] = 0 # map Suc [0..<length xs]"
    by (simp add: upt_conv_Cons map_Suc_upt del: upt_Suc)
  then show ?thesis
    by (simp add: positions_def filter_map comp_def)
qed

lemma positions_sorted:
  "sorted idx \<Longrightarrow>
   positions idx a = [searchsorted idx a Left ..< searchsorted idx a Right]"
proof (induction idx)
  case Nil
  show ?case by (simp add: positions_Nil searchsorted_def)
next
  case (Cons x xs)
  then have IH: "positions xs a = [searchsorted xs a Left ..< searchsorted xs a Right]"
    by simp
  consider (lt) "x < a" | (eq) "x = a" | (gt) "a < x" by linarith
  then show ?case
  proof cases
    case lt
    then show ?thesis
      by (simp add: positions_Cons IH searchsorted_def map_Suc_upt)
  next
    case eq
    have "takeWhile (\<lambda>t. t < a) xs = []"
      using Cons.prems eq by (cases xs) auto
    moreover have "[0..<Suc n] = 0 # map Suc [0..<n]" for n
      by (simp add: upt_conv_Cons map_Suc_upt del: upt_Suc)
    ultimately show ?thesis
      using eq by (simp add: positions_Cons IH searchsorted_def del: upt_Suc)
  next
    case gt
    have "takeWhile (\<lambda>t. t < a) xs = []" "takeWhile (\<lambda>t. t \<le> a) xs = []"
      using Cons.prems gt by (cases xs; auto)+
    then show ?thesis
      using gt by (simp add: positions_Cons IH searchsorted_def)
  qed
qed

lemma searchsorted_Left_le_Right: "searchsorted idx a Left \<le> searchsorted idx a Right"
proof -
  have "length (takeWhile (\<lambda>t. t < a) idx) \<le> length (takeWhile (\<lambda>t. t \<le> a) idx)"
    by (induction idx) auto
  then show ?thesis by (simp add: searchsorted_def)
qed

lemma locate_sorted:
  assumes "sorted idx"
  shows "locate idx a sd = Inr (searchsorted idx a sd)"
proof (cases "searchsorted idx a Left < searchsorted idx a Right")
  case False
  then have "positions idx a = []"
    by (simp add: positions_sorted [OF assms])
  then show ?thesis
    using assms by (simp add: locate_def)
next
  case True
  let ?lo = "searchsorted idx a Left" and ?hi = "searchsorted idx a Right"
  have pos: "positions idx a = [?lo..<?hi]"
    by (rule positions_sorted [OF assms])
  from True obtain ps where ps: "[?lo..<?hi] = ?lo # ps"
    by (auto simp: upt_conv_Cons)
  have "length (?lo # ps) = ?hi - ?lo"
    using ps by (metis length_upt)
  then have "?lo + length (?lo # ps) = ?hi"
    using True by linarith
  then have cont: "contiguous (?lo # ps)"
    using ps by (simp add: contiguous_def)
  have "last (?lo # ps) = ?hi - 1"
    using ps last_upt [OF True] by metis
  then have lst: "last (?lo # ps) + 1 = ?hi"
    using True by linarith
  show ?thesis
    using cont lst by (cases sd) (simp_all add: locate_def pos ps)
qed

lemma filter_le_sorted:
  "sorted (map f xs) \<Longrightarrow> filter (\<lambda>r. f r \<le> (b::int)) xs = takeWhile (\<lambda>r. f r \<le> b) xs"
proof (induction xs)
  case Nil
  show ?case by simp
next
  case (Cons x xs)
  show ?case
  proof (cases "f x \<le> b")
    case True
    with Cons show ?thesis by simp
  next
    case False
    with Cons.prems have "\<forall>r \<in> set xs. \<not> f r \<le> b" by auto
    then have "filter (\<lambda>r. f r \<le> b) xs = []" by (simp add: filter_empty_conv)
    with False show ?thesis by simp
  qed
qed

lemma filter_range_sorted:
  "sorted (map f xs) \<Longrightarrow>
   filter (\<lambda>r. (a::int) \<le> f r \<and> f r \<le> b) xs =
     takeWhile (\<lambda>r. f r \<le> b) (dropWhile (\<lambda>r. f r < a) xs)"
proof (induction xs)
  case Nil
  show ?case by simp
next
  case (Cons x xs)
  show ?case
  proof (cases "f x < a")
    case True
    with Cons show ?thesis by simp
  next
    case False
    with Cons.prems have "\<forall>r \<in> set (x # xs). a \<le> f r" by auto
    then have "filter (\<lambda>r. a \<le> f r \<and> f r \<le> b) (x # xs) = filter (\<lambda>r. f r \<le> b) (x # xs)"
      by (intro filter_cong) auto
    then show ?thesis
      using False filter_le_sorted [OF Cons.prems, of b] by simp
  qed
qed

lemma take_drop_slice:
  "take (length (takeWhile (\<lambda>r. f r \<le> b) xs) - length (takeWhile (\<lambda>r. f r < a) xs))
        (drop (length (takeWhile (\<lambda>r. f r < a) xs)) xs) =
   takeWhile (\<lambda>r. f r \<le> (b::int)) (dropWhile (\<lambda>r. f r < (a::int)) xs)"
proof (cases "a \<le> b")
  case True
  let ?L = "takeWhile (\<lambda>r. f r < a) xs" and ?D = "dropWhile (\<lambda>r. f r < a) xs"
  have "\<forall>r \<in> set ?L. f r \<le> b"
    using True by (auto dest: set_takeWhileD)
  then have "takeWhile (\<lambda>r. f r \<le> b) (?L @ ?D) = ?L @ takeWhile (\<lambda>r. f r \<le> b) ?D"
    by (intro takeWhile_append2) simp
  then have len: "length (takeWhile (\<lambda>r. f r \<le> b) xs) = length ?L + length (takeWhile (\<lambda>r. f r \<le> b) ?D)"
    by simp
  show ?thesis
    unfolding len by (simp add: dropWhile_eq_drop [symmetric] takeWhile_eq_take [symmetric])
next
  case False
  have le: "length (takeWhile (\<lambda>r. f r \<le> b) xs) \<le> length (takeWhile (\<lambda>r. f r < a) xs)"
    using False by (induction xs) auto
  have "takeWhile (\<lambda>r. f r \<le> b) (dropWhile (\<lambda>r. f r < a) xs) = []"
    using False by (induction xs) auto
  with le show ?thesis by simp
qed

lemma loc_slice_sorted:
  assumes "stamps (map index df) = Some ts" and "sorted ts"
    and "in_bounds a" and "in_bounds b"
  shows "loc_slice df a b = Inr (filter (dated_within a b) df)"
proof -
  let ?f = "\<lambda>r. date_key (index r)"
  from assms(1) have idx: "map index df = map Stamp ts"
    by (simp add: stamps_Some_iff)
  then have "map date_key (map index df) = ts"
    by (simp add: comp_def date_key_def)
  then have ts: "ts = map ?f df"
    by (simp add: comp_def)
  have srt: "sorted (map ?f df)"
    using assms(2) by (simp add: ts)
  have "\<exists>t. index r = Stamp t" if "r \<in> set df" for r
  proof -
    from that have "index r \<in> set (map Stamp ts)"
      unfolding idx [symmetric] by simp
    then show ?thesis by auto
  qed
  then have "dated_within a b r = (a \<le> ?f r \<and> ?f r \<le> b)" if "r \<in> set df" for r
    using that by (fastforce simp add: dated_within_def date_key_def)
  then have "filter (dated_within a b) df = filter (\<lambda>r. a \<le> ?f r \<and> ?f r \<le> b) df"
    by (intro filter_cong) simp_all
  then have "take (searchsorted ts b Right - searchsorted ts a Left)
          (drop (searchsorted ts a Left) df) = filter (dated_within a b) df"
    by (simp add: ts searchsorted_def takeWhile_map comp_def take_drop_slice
          filter_range_sorted [OF srt])
  then show ?thesis
    using assms(3,4)
    by (simp add: loc_slice_def get_slice_bound_def assms(1) locate_sorted [OF assms(2)])
qed

subsection \<open>What batch\_read does, by outcome of the reads\<close>

lemmas run_defs =
  batch_read_def read_def read_csv_def parse_dates_def parsed_def in_bounds_def
  site_folder_def log_folder_def bare_folder_def missing_folder_def glob_csv_def
  matches_csv_def stem_def rfind_dot_def label_of_def stamp_def pd_concat_def
  sort_frame_def comparable_def insertion_sort_index_def date_key_def text_key_def
  init_def Let_def row_A1_def row_A2_def row_B1_def
  site_table_def site_reader_def log_table_def log_reader_def
  jan5_0800_def feb1_0000_def feb3_0800_def feb3_0900_def feb4_0800_def year_3000_def

text \<open>
  A file whose dates parse is readable, and every label of its frame is a date.
\<close>

lemma dated_readable: "dated d fn \<Longrightarrow> readable d fn"
  by (simp add: dated_def readable_def read_csv_def split: sum.splits)

lemma frame_dated:
  assumes "dated d (fst p)" and "r \<in> set (frame_of d p)"
  shows "\<exists>t. index r = Stamp t"
proof -
  from assms(1) obtain ls where ls: "csv_lines d (fst p @ ''.csv'') = Inr ls"
    and ok: "list_all parsed ls"
    by (auto simp add: dated_def split: sum.splits)
  from assms(2) obtain l where "l \<in> set ls"
    and r: "r = stamp (label_of (fst p) (snd p))
                 \<lparr>csv_index =
                    (case date_value l of
                       None \<Rightarrow> Raw (date_text l)
                     | Some t \<Rightarrow> if list_all parsed ls then Stamp t else Raw (date_text l)),
                  csv_cells = line_cells l\<rparr>"
    by (auto simp add: frame_of_def read_csv_def ls parse_dates_def)
  with ok have "parsed l"
    by (simp add: list_all_iff)
  then obtain t where "date_value l = Some t"
    by (auto simp add: parsed_def split: option.splits)
  with ok r show ?thesis
    by (simp add: stamp_def)
qed

lemma frames_dated:
  assumes "list_all (\<lambda>p. dated d (fst p)) ps"
  shows "\<exists>ts. stamps (map index (concat (map (frame_of d) ps))) = Some ts"
proof -
  have "\<exists>t. l = Stamp t" if "l \<in> set (map index (concat (map (frame_of d) ps)))" for l
  proof -
    from that obtain p r where "p \<in> set ps" and "r \<in> set (frame_of d p)" and "l = index r"
      by auto
    with assms frame_dated [of d p r] show ?thesis
      by (auto simp add: list_all_iff)
  qed
  then show ?thesis
    using stamps_all_dates by blast
qed

text \<open>
  On a frame indexed by dates the sort succeeds, and the sorted frame is indexed by
  dates in ascending order.
\<close>

lemma sort_frame_dates:
  assumes "sorts_by_index srt" and "stamps (map index df) = Some us"
  shows "\<exists>ts. sort_frame srt df = Inr (srt df) \<and> map index (srt df) = map Stamp ts \<and>
           sorted ts \<and> mset (srt df) = mset df"
proof -
  from assms(2) have cmp: "comparable (map index df)"
    by (simp add: comparable_def)
  with assms(1) have asc: "ascending (map index (srt df))" and m: "mset (srt df) = mset df"
    by (simp_all add: sorts_by_index_def)
  from assms(2) have "map index df = map Stamp us"
    by (simp add: stamps_Some_iff)
  then have "\<exists>t. l = Stamp t" if "l \<in> set (map index df)" for l
    using that by auto
  moreover from m have "set (srt df) = set df"
    by (rule mset_eq_setD)
  ultimately have "\<exists>t. l = Stamp t" if "l \<in> set (map index (srt df))" for l
    using that by simp
  then have st: "stamps (map index (srt df)) = Some (map date_key (map index (srt df)))"
    by (rule stamps_all_dates)
  with asc have srt: "sorted (map date_key (map index (srt df)))"
    by (simp add: ascending_def)
  from st have idx: "map index (srt df) = map Stamp (map date_key (map index (srt df)))"
    by (rule stamps_SomeD)
  from cmp have "sort_frame srt df = Inr (srt df)"
    by (simp add: sort_frame_def)
  with idx srt m show ?thesis
    by blast
qed

text \<open>
  With no file to read, \<^verbatim>\<open>pd.concat\<close> raises after the location list was assigned.
\<close>

lemma batch_read_no_sources:
  assumes "sources d file_names = []"
  shows "batch_read srt d s file_names locs =
           (Inl ValueError, s\<lparr>locations := Some (recorded_locations [] locs)\<rparr>)"
proof -
  have "pairing [] locs = []"
    by (simp add: pairing_def split: option.splits list.splits)
  then show ?thesis
    by (simp add: batch_read_unfold assms pd_concat_def)
qed

text \<open>
  With at least one pair, every paired file readable and labels that compare, the load
  succeeds.
\<close>

lemma batch_read_all_readable:
  assumes "list_all (\<lambda>p. readable d (fst p)) (pairing (sources d file_names) locs)"
    and "pairing (sources d file_names) locs \<noteq> []"
    and "sort_frame srt (concat (map (frame_of d) (pairing (sources d file_names) locs))) = Inr t"
  shows "batch_read srt d s file_names locs =
           (Inr t,
            s\<lparr>measurement_data := Some t,
               locations := Some (recorded_locations (sources d file_names) locs)\<rparr>)"
  using assms(2,3) by (simp add: batch_read_unfold read_each_ok [OF assms(1)] pd_concat_def)

lemma batch_read_dated:
  assumes "sorts_by_index srt"
    and "list_all (\<lambda>p. dated d (fst p)) (pairing (sources d file_names) locs)"
    and "pairing (sources d file_names) locs \<noteq> []"
  shows "\<exists>ts. batch_read srt d s file_names locs =
           (Inr (srt (concat (map (frame_of d) (pairing (sources d file_names) locs)))),
            s\<lparr>measurement_data :=
                 Some (srt (concat (map (frame_of d) (pairing (sources d file_names) locs)))),
               locations := Some (recorded_locations (sources d file_names) locs)\<rparr>) \<and>
           map index (srt (concat (map (frame_of d) (pairing (sources d file_names) locs)))) =
             map Stamp ts \<and>
           sorted ts \<and>
           mset (srt (concat (map (frame_of d) (pairing (sources d file_names) locs)))) =
             mset (concat (map (frame_of d) (pairing (sources d file_names) locs)))"
proof -
  let ?ps = "pairing (sources d file_names) locs"
  from assms(2) have ok: "list_all (\<lambda>p. readable d (fst p)) ?ps"
    by (auto simp add: list_all_iff intro: dated_readable)
  from frames_dated [OF assms(2)] obtain us where
    "stamps (map index (concat (map (frame_of d) ?ps))) = Some us"
    by blast
  from sort_frame_dates [OF assms(1) this] obtain ts where
    sf: "sort_frame srt (concat (map (frame_of d) ?ps)) = Inr (srt (concat (map (frame_of d) ?ps)))"
    and rest: "map index (srt (concat (map (frame_of d) ?ps))) = map Stamp ts" "sorted ts"
      "mset (srt (concat (map (frame_of d) ?ps))) = mset (concat (map (frame_of d) ?ps))"
    by blast
  from batch_read_all_readable [OF ok assms(3) sf, of s] rest show ?thesis
    by blast
qed

text \<open>
  A successful load over files whose dates parse returns and stores a table indexed by
  dates in ascending order.
\<close>

lemma batch_read_stores_sorted:
  assumes "sorts_by_index srt" and "batch_read srt d s file_names locs = (Inr t, s')"
    and "list_all (\<lambda>p. dated d (fst p)) (pairing (sources d file_names) locs)"
  shows "\<exists>ts. map index t = map Stamp ts \<and> sorted ts \<and> measurement_data s' = Some t"
proof (cases "pairing (sources d file_names) locs = []")
  case True
  then have "batch_read srt d s file_names locs =
      (Inl ValueError, s\<lparr>locations := Some (recorded_locations (sources d file_names) locs)\<rparr>)"
    by (simp add: batch_read_unfold pd_concat_def)
  with assms(2) show ?thesis by simp
next
  case False
  from batch_read_dated [OF assms(1) assms(3) False, of s] assms(2) show ?thesis
    by auto
qed

text \<open>
  Any successful load returns and stores a table whose labels are ascending, hence of
  one kind; the frame that \<open>read\<close> stores is the frame of one file and has labels
  of one kind too. So the reader never holds an index with both dates and texts.
\<close>

lemma ascending_comparable: "ascending ls \<Longrightarrow> comparable ls"
  by (simp add: ascending_def comparable_def split: option.splits)

lemma parse_dates_comparable: "comparable (map csv_index (parse_dates ls))"
proof (cases "list_all parsed ls")
  case True
  have "\<exists>t. l = Stamp t" if "l \<in> set (map csv_index (parse_dates ls))" for l
  proof -
    from that obtain x where x: "x \<in> set ls"
      and l: "l = (case date_value x of
                     None \<Rightarrow> Raw (date_text x)
                   | Some t \<Rightarrow> if list_all parsed ls then Stamp t else Raw (date_text x))"
      by (auto simp add: parse_dates_def)
    from x True have "parsed x"
      by (simp add: list_all_iff)
    with l True show ?thesis
      by (auto simp add: parsed_def split: option.splits)
  qed
  then have "stamps (map csv_index (parse_dates ls)) =
      Some (map date_key (map csv_index (parse_dates ls)))"
    by (rule stamps_all_dates)
  then show ?thesis
    by (simp add: comparable_def)
next
  case False
  have "\<exists>x. l = Raw x" if "l \<in> set (map csv_index (parse_dates ls))" for l
    using that False by (auto simp add: parse_dates_def split: option.splits)
  then have "texts (map csv_index (parse_dates ls)) =
      Some (map text_key (map csv_index (parse_dates ls)))"
    by (rule texts_all_texts)
  then show ?thesis
    by (simp add: comparable_def split: option.splits)
qed

lemma read_stores_comparable:
  assumes "read d s fn loc = (Inr df, s')"
  shows "comparable (map index df) \<and> measurement_data s' = Some df"
proof -
  from assms obtain ls where "csv_lines d (fn @ ''.csv'') = Inr ls"
    and df: "df = map (stamp (label_of fn loc)) (parse_dates ls)"
    and st: "measurement_data s' = Some df"
    by (auto simp add: read_def read_csv_def Let_def split: sum.splits)
  have "map index df = map csv_index (parse_dates ls)"
    by (simp add: df stamp_def comp_def)
  with parse_dates_comparable [of ls] st show ?thesis
    by simp
qed

lemma batch_read_ascending:
  assumes "sorts_by_index srt" and "batch_read srt d s file_names locs = (Inr t, s')"
  shows "ascending (map index t) \<and> comparable (map index t) \<and> measurement_data s' = Some t"
proof -
  obtain r s1 where re: "read_each d s (pairing (sources d file_names) locs) = (r, s1)"
    by (cases "read_each d s (pairing (sources d file_names) locs)")
  from assms(2) obtain df where "comparable (map index df)" and "t = srt df"
    and st: "measurement_data s' = Some t"
    by (auto simp add: batch_read_unfold re pd_concat_def sort_frame_def
          split: sum.splits if_splits)
  with assms(1) have "ascending (map index t)"
    by (simp add: sorts_by_index_def)
  with st show ?thesis
    by (simp add: ascending_comparable)
qed

text \<open>
  The example folders loaded.
\<close>

lemma site_folder_load:
  "batch_read insertion_sort_index site_folder init None
       (Some [''siteA'', ''siteB'', ''siteC'']) =
     (Inr site_table, site_reader)"
  by (simp add: run_defs)

lemma log_folder_load:
  "batch_read insertion_sort_index log_folder init None None = (Inr log_table, log_reader)"
  by (simp add: run_defs)

lemma site_folder_dated:
  "list_all (\<lambda>p. dated site_folder (fst p))
     (pairing (sources site_folder None) (Some [''siteA'', ''siteB'', ''siteC'']))"
  by (simp add: pairing_def sources_def dated_def run_defs)

subsection \<open>Failure of a read during batch\_read\<close>

text \<open>
  C1, as stated (a failing source leaves the measurement table exactly as it was before the
  call), fails: loading \<^verbatim>\<open>['A', 'E']\<close> into a new reader, where \<^verbatim>\<open>A.csv\<close> parses and
  \<^verbatim>\<open>E.csv\<close> is missing, raises \<^verbatim>\<open>FileNotFoundError\<close> and leaves the table of \<^verbatim>\<open>A.csv\<close> in
  \<^verbatim>\<open>measurement_data\<close>, which was \<^verbatim>\<open>None\<close> before the call.
\<close>

theorem batch_read_not_atomic_counterexample:
  "batch_read insertion_sort_index site_folder init (Some [''A'', ''E'']) None =
     (Inl FileNotFoundError, \<lparr>measurement_data = Some [row_A1, row_A2], locations = None\<rparr>) \<and>
   measurement_data (init :: (int \<times> int) reader) = None"
  by (simp add: run_defs)

text \<open>
  C1, amended: if reading one of the sources fails, \<open>batch_read\<close> fails, the location
  list is left exactly as it was before the call, and the measurement table is left as it
  was only if no source was read before the failing one; otherwise it is the table of the
  last source read before the failure, because \<open>read\<close> stores every table it parses.
\<close>

theorem batch_read_source_failure:
  assumes "\<not> list_all (\<lambda>p. readable d (fst p)) (pairing (sources d file_names) locs)"
  shows "(\<exists>e. fst (batch_read srt d s file_names locs) = Inl e) \<and>
         locations (snd (batch_read srt d s file_names locs)) = locations s \<and>
         measurement_data (snd (batch_read srt d s file_names locs)) =
           last_frame d s
             (takeWhile (\<lambda>p. readable d (fst p)) (pairing (sources d file_names) locs))"
proof -
  from read_each_fail [OF assms, of s] obtain e where
    "read_each d s (pairing (sources d file_names) locs) =
       (Inl e, s\<lparr>measurement_data := last_frame d s
          (takeWhile (\<lambda>p. readable d (fst p)) (pairing (sources d file_names) locs))\<rparr>)"
    by blast
  then show ?thesis
    by (simp add: batch_read_unfold)
qed

text \<open>
  The amended C1 at work: with \<^verbatim>\<open>['A', 'E']\<close> the table of \<^verbatim>\<open>A.csv\<close> stays behind, with
  \<^verbatim>\<open>['E', 'A']\<close> nothing was read before the failure and the table is as before; the
  location list is as before in both.
\<close>

theorem batch_read_source_failure_witness:
  "\<not> list_all (\<lambda>p. readable site_folder (fst p))
        (pairing (sources site_folder (Some [''A'', ''E''])) None) \<and>
   locations (snd (batch_read insertion_sort_index site_folder init (Some [''A'', ''E'']) None)) =
     locations (init :: (int \<times> int) reader) \<and>
   measurement_data
     (snd (batch_read insertion_sort_index site_folder init (Some [''A'', ''E'']) None)) =
     Some [row_A1, row_A2] \<and>
   measurement_data
     (snd (batch_read insertion_sort_index site_folder init (Some [''E'', ''A'']) None)) =
     measurement_data (init :: (int \<times> int) reader)"
proof -
  have h1: "\<not> list_all (\<lambda>p. readable site_folder (fst p))
        (pairing (sources site_folder (Some [''A'', ''E''])) None)"
    by (simp add: pairing_def sources_def readable_def read_csv_def site_folder_def)
  have h2: "\<not> list_all (\<lambda>p. readable site_folder (fst p))
        (pairing (sources site_folder (Some [''E'', ''A''])) None)"
    by (simp add: pairing_def sources_def readable_def read_csv_def site_folder_def)
  have f1: "last_frame site_folder init
      (takeWhile (\<lambda>p. readable site_folder (fst p))
         (pairing (sources site_folder (Some [''A'', ''E''])) None)) = Some [row_A1, row_A2]"
    by (simp add: pairing_def sources_def readable_def last_frame_def frame_of_def run_defs)
  have f2: "last_frame site_folder init
      (takeWhile (\<lambda>p. readable site_folder (fst p))
         (pairing (sources site_folder (Some [''E'', ''A''])) None)) =
      measurement_data (init :: (int \<times> int) reader)"
    by (simp add: pairing_def sources_def readable_def read_csv_def site_folder_def
          last_frame_def)
  show ?thesis
    using h1 f1 f2
      batch_read_source_failure [OF h1, of insertion_sort_index init]
      batch_read_source_failure [OF h2, of insertion_sort_index init]
    by simp
qed

subsection \<open>The loaded table is ascending\<close>




subsection \<open>Queries with both bounds\<close>

text \<open>
  C3, as stated (on every loaded table and for every pair of bounds the query returns the
  records in the closed range), fails: on the loaded example table the bounds 2023-02-01
  and 3000-01-01 give no records but an \<^verbatim>\<open>OutOfBoundsDatetime\<close>, since pandas cannot turn
  the year 3000 into a \<^verbatim>\<open>Timestamp\<close>; and on the table loaded from \<^verbatim>\<open>T.csv\<close>, whose index
  is text, the query raises \<^verbatim>\<open>TypeError\<close>.
\<close>

theorem query_bounds_counterexample:
  "batch_read insertion_sort_index site_folder init None
       (Some [''siteA'', ''siteB'', ''siteC'']) =
     (Inr site_table, site_reader) \<and>
   get_measurements site_reader (Some feb1_0000) (Some year_3000) None =
     (Inl OutOfBoundsDatetime, site_reader) \<and>
   batch_read insertion_sort_index log_folder init None None = (Inr log_table, log_reader) \<and>
   get_measurements log_reader (Some feb1_0000) (Some feb4_0800) None =
     (Inl TypeError, log_reader)"
proof -
  have "get_measurements site_reader (Some feb1_0000) (Some year_3000) None =
     (Inl OutOfBoundsDatetime, site_reader)"
    by (simp add: get_measurements_def loc_slice_def get_slice_bound_def site_reader_def
          site_table_def in_bounds_def year_3000_def feb1_0000_def locate_def positions_def
          searchsorted_def feb3_0800_def feb3_0900_def feb4_0800_def)
  moreover have "get_measurements log_reader (Some feb1_0000) (Some feb4_0800) None =
     (Inl TypeError, log_reader)"
    by (simp add: get_measurements_def loc_slice_def get_slice_bound_def log_reader_def
          log_table_def)
  ultimately show ?thesis
    using site_folder_load log_folder_load by simp
qed

text \<open>
  C3, amended: on every table loaded by \<open>batch_read\<close> from source files whose date
  column parses in every line, and for every pair of bounds \<open>start\<close> and \<open>end\<close>, both
  given and both among the dates that a pandas \<^verbatim>\<open>Timestamp\<close> can hold, \<open>get_measurements\<close>
  (without locations) returns exactly the records whose timestamp \<open>ts\<close> satisfies
  \<open>start \<le> ts \<le> end\<close>, in table order; a record whose timestamp equals \<open>start\<close> or
  \<open>end\<close> is included.
\<close>

theorem get_measurements_closed_range:
  assumes "sorts_by_index srt" and "batch_read srt d s0 file_names locs = (Inr t, s)"
    and "list_all (\<lambda>p. dated d (fst p)) (pairing (sources d file_names) locs)"
    and "in_bounds a" and "in_bounds b"
  shows "get_measurements s (Some a) (Some b) None =
           (Inr (Some (filter (dated_within a b) t)), s)"
proof -
  from batch_read_stores_sorted [OF assms(1,2,3)] obtain ts where
    idx: "stamps (map index t) = Some ts" and srt: "sorted ts"
    and st: "measurement_data s = Some t"
    by (auto simp add: stamps_Some_iff)
  show ?thesis
    by (simp add: get_measurements_def st loc_slice_sorted [OF idx srt assms(4,5)])
qed

text \<open>
  The amended C3 on the example table with the bounds 3 February 08:00 and 09:00, both
  timestamps of records: the records at these times are returned, the one of 4 February
  is not.
\<close>

theorem get_measurements_closed_range_witness:
  "in_bounds feb3_0800 \<and> in_bounds feb3_0900 \<and>
   get_measurements site_reader (Some feb3_0800) (Some feb3_0900) None =
     (Inr (Some
        [\<lparr>index = Stamp feb3_0800, cells = (105, 40), location = ''siteA''\<rparr>,
         \<lparr>index = Stamp feb3_0900, cells = (98, 38), location = ''siteB''\<rparr>,
         \<lparr>index = Stamp feb3_0900, cells = (98, 38), location = ''siteC''\<rparr>]),
      site_reader)"
proof -
  have a: "in_bounds feb3_0800" and b: "in_bounds feb3_0900"
    by (simp_all add: in_bounds_def feb3_0800_def feb3_0900_def)
  from get_measurements_closed_range
    [OF sorts_by_index_insertion_sort site_folder_load site_folder_dated a b] a b
  show ?thesis
    by (simp add: site_table_def dated_within_def feb3_0800_def feb3_0900_def feb4_0800_def)
qed

subsection \<open>Queries with one bound\<close>

text \<open>
  C7: on every reader, \<open>get_measurements\<close> with exactly one of \<open>start\<close> and \<open>end\<close>
  given applies no date filter: its outcome is that of the call with neither bound. On a
  loaded table \<open>t\<close> that is the whole of \<open>t\<close> when no location list or an empty one is
  given, and the records of \<open>t\<close> whose location is in the list, in table order, when a
  non-empty one is given.
\<close>

theorem get_measurements_one_bound:
  "get_measurements s (Some a) None locs = get_measurements s None None locs \<and>
   get_measurements s None (Some b) locs = get_measurements s None None locs \<and>
   get_measurements (s\<lparr>measurement_data := Some t\<rparr>) (Some a) None None =
     (Inr (Some t), s\<lparr>measurement_data := Some t\<rparr>) \<and>
   get_measurements (s\<lparr>measurement_data := Some t\<rparr>) None (Some b) None =
     (Inr (Some t), s\<lparr>measurement_data := Some t\<rparr>) \<and>
   get_measurements (s\<lparr>measurement_data := Some t\<rparr>) (Some a) None (Some []) =
     (Inr (Some t), s\<lparr>measurement_data := Some t\<rparr>) \<and>
   get_measurements (s\<lparr>measurement_data := Some t\<rparr>) None (Some b) (Some []) =
     (Inr (Some t), s\<lparr>measurement_data := Some t\<rparr>) \<and>
   get_measurements (s\<lparr>measurement_data := Some t\<rparr>) (Some a) None (Some (l # ls)) =
     (Inr (Some (filter (\<lambda>r. location r \<in> set (l # ls)) t)),
      s\<lparr>measurement_data := Some t\<rparr>) \<and>
   get_measurements (s\<lparr>measurement_data := Some t\<rparr>) None (Some b) (Some (l # ls)) =
     (Inr (Some (filter (\<lambda>r. location r \<in> set (l # ls)) t)),
      s\<lparr>measurement_data := Some t\<rparr>)"
  by (simp add: get_measurements_def isin_locations_def split: option.splits list.splits)

text \<open>
  C7 on the example table: with one bound and the locations \<^verbatim>\<open>['siteB', 'siteC']\<close> the two
  records of \<^verbatim>\<open>siteA\<close> are dropped, whatever their dates; with one bound and no locations
  the whole table is returned.
\<close>

theorem get_measurements_one_bound_witness:
  "get_measurements site_reader (Some feb4_0800) None (Some [''siteB'', ''siteC'']) =
     (Inr (Some
        [\<lparr>index = Stamp feb3_0900, cells = (98, 38), location = ''siteB''\<rparr>,
         \<lparr>index = Stamp feb3_0900, cells = (98, 38), location = ''siteC''\<rparr>]),
      site_reader) \<and>
   get_measurements site_reader None (Some feb3_0800) None = (Inr (Some site_table), site_reader)"
proof -
  have eq: "site_reader\<lparr>measurement_data := Some site_table\<rparr> = site_reader"
    by (simp add: site_reader_def)
  note w = get_measurements_one_bound [where s = site_reader and a = feb4_0800
      and b = feb3_0800 and t = site_table and l = "''siteB''" and ls = "[''siteC'']"
      and locs = None]
  from w have 1: "get_measurements (site_reader\<lparr>measurement_data := Some site_table\<rparr>)
      (Some feb4_0800) None (Some [''siteB'', ''siteC'']) =
     (Inr (Some (filter (\<lambda>r. location r \<in> set [''siteB'', ''siteC'']) site_table)),
      site_reader\<lparr>measurement_data := Some site_table\<rparr>)"
    by blast
  from w have 2: "get_measurements (site_reader\<lparr>measurement_data := Some site_table\<rparr>)
      None (Some feb3_0800) None =
     (Inr (Some site_table), site_reader\<lparr>measurement_data := Some site_table\<rparr>)"
    by blast
  have f: "filter (\<lambda>r. location r \<in> set [''siteB'', ''siteC'']) site_table =
        [\<lparr>index = Stamp feb3_0900, cells = (98, 38), location = ''siteB''\<rparr>,
         \<lparr>index = Stamp feb3_0900, cells = (98, 38), location = ''siteC''\<rparr>]"
    by (simp add: site_table_def)
  from 1 2 show ?thesis
    unfolding eq f by simp
qed

subsection \<open>Queries leave the reader alone\<close>

text \<open>
  C9: \<open>get_datetime_limits\<close> and \<open>get_measurements\<close>, with any arguments and whether
  they return or raise, leave the measurement table and the location list of the reader
  unchanged.
\<close>

theorem queries_leave_reader_unchanged:
  "snd (get_datetime_limits s) = s \<and> snd (get_measurements s start stop locs) = s"
  by (simp add: get_datetime_limits_def get_measurements_def Let_def
        split: option.splits list.splits sum.splits prod.splits)

subsection \<open>Nothing to load, nothing loaded\<close>

text \<open>
  C4, as stated (a directory without CSV files loads as an empty table, and a query before
  any successful load fails), fails in three ways: on a folder that holds only
  \<^verbatim>\<open>notes.txt\<close>, \<open>batch_read\<close> returns no table but raises \<^verbatim>\<open>ValueError\<close>;
  \<open>get_measurements\<close> without bounds and locations on a new reader returns \<^verbatim>\<open>None\<close>
  without raising; and after the load of \<^verbatim>\<open>['A', 'E']\<close>, which fails, both queries answer
  from the table of \<^verbatim>\<open>A.csv\<close> although no load has succeeded.
\<close>

theorem empty_folder_load_counterexample:
  "batch_read insertion_sort_index bare_folder init None None =
     (Inl ValueError, \<lparr>measurement_data = None, locations = Some []\<rparr>) \<and>
   get_measurements (init :: (int \<times> int) reader) None None None = (Inr None, init) \<and>
   batch_read insertion_sort_index site_folder init (Some [''A'', ''E'']) None =
     (Inl FileNotFoundError, \<lparr>measurement_data = Some [row_A1, row_A2], locations = None\<rparr>) \<and>
   get_datetime_limits \<lparr>measurement_data = Some [row_A1, row_A2], locations = None\<rparr> =
     (Inr (Stamp feb3_0800, Stamp feb4_0800),
      \<lparr>measurement_data = Some [row_A1, row_A2], locations = None\<rparr>) \<and>
   get_measurements \<lparr>measurement_data = Some [row_A1, row_A2], locations = None\<rparr>
       None None None =
     (Inr (Some [row_A1, row_A2]),
      \<lparr>measurement_data = Some [row_A1, row_A2], locations = None\<rparr>)"
  by (simp add: run_defs get_measurements_def get_datetime_limits_def)

text \<open>
  C4, amended: loading a directory without CSV files yields no table; \<open>batch_read\<close>
  fails with \<^verbatim>\<open>ValueError\<close>, leaves the measurement table as it was and sets the location
  list (to the location list passed if that is non-empty, else to the empty list), and
  when the measurement table was \<^verbatim>\<open>None\<close> a following \<open>get_datetime_limits\<close> fails with
  \<^verbatim>\<open>AttributeError\<close>. As long as the measurement table is \<^verbatim>\<open>None\<close> (no source has been read
  yet), \<open>get_datetime_limits\<close> fails with \<^verbatim>\<open>AttributeError\<close>, and \<open>get_measurements\<close>
  fails with \<^verbatim>\<open>AttributeError\<close> when both bounds are given or a non-empty location list is
  given, and in every other case returns \<^verbatim>\<open>None\<close> without failing.
\<close>

theorem unloaded_reader_failures:
  fixes d :: "'c data_folder" and u :: "'c reader"
  shows "(glob_csv d = [] \<longrightarrow>
            batch_read srt d s None locs =
              (Inl ValueError, s\<lparr>locations := Some (recorded_locations [] locs)\<rparr>) \<and>
            measurement_data (snd (batch_read srt d s None locs)) = measurement_data s \<and>
            (measurement_data s = None \<longrightarrow>
               get_datetime_limits (snd (batch_read srt d s None locs)) =
                 (Inl AttributeError, snd (batch_read srt d s None locs)))) \<and>
         (measurement_data u = None \<longrightarrow>
            get_datetime_limits u = (Inl AttributeError, u) \<and>
            get_measurements u start stop qlocs =
              (if (start \<noteq> None \<and> stop \<noteq> None) \<or> (qlocs \<noteq> None \<and> qlocs \<noteq> Some [])
               then Inl AttributeError else Inr None, u))"
proof -
  have load: "batch_read srt d s None locs =
           (Inl ValueError, s\<lparr>locations := Some (recorded_locations [] locs)\<rparr>)"
    if "glob_csv d = []"
  proof -
    from that have "sources d None = []"
      by (simp add: sources_def)
    then show ?thesis
      by (rule batch_read_no_sources)
  qed
  have lim: "get_datetime_limits u = (Inl AttributeError, u)" if "measurement_data u = None"
    using that by (simp add: get_datetime_limits_def)
  have qry: "get_measurements u start stop qlocs =
              (if (start \<noteq> None \<and> stop \<noteq> None) \<or> (qlocs \<noteq> None \<and> qlocs \<noteq> Some [])
               then Inl AttributeError else Inr None, u)"
    if "measurement_data u = None"
    using that by (auto simp add: get_measurements_def split: option.splits list.splits)
  have after: "get_datetime_limits (snd (batch_read srt d s None locs)) =
                 (Inl AttributeError, snd (batch_read srt d s None locs))"
    if "glob_csv d = []" and "measurement_data s = None"
    using that by (simp add: load get_datetime_limits_def)
  from load lim qry after show ?thesis
    by simp
qed

text \<open>
  The amended C4 on the folder that holds only \<^verbatim>\<open>notes.txt\<close> and a new reader.
\<close>

theorem unloaded_reader_failures_witness:
  "glob_csv bare_folder = [] \<and>
   measurement_data (init :: (int \<times> int) reader) = None \<and>
   batch_read insertion_sort_index bare_folder init None None =
     (Inl ValueError, \<lparr>measurement_data = None, locations = Some []\<rparr>) \<and>
   get_datetime_limits (snd (batch_read insertion_sort_index bare_folder init None None)) =
     (Inl AttributeError, \<lparr>measurement_data = None, locations = Some []\<rparr>) \<and>
   get_datetime_limits (init :: (int \<times> int) reader) = (Inl AttributeError, init) \<and>
   get_measurements (init :: (int \<times> int) reader) (Some feb3_0800) (Some feb4_0800) None =
     (Inl AttributeError, init) \<and>
   get_measurements (init :: (int \<times> int) reader) (Some feb3_0800) None None =
     (Inr None, init)"
proof -
  have h: "glob_csv bare_folder = []"
    by (simp add: glob_csv_def bare_folder_def matches_csv_def)
  have u: "measurement_data (init :: (int \<times> int) reader) = None"
    by (simp add: init_def)
  show ?thesis
    using h u
      unloaded_reader_failures [where d = bare_folder and srt = insertion_sort_index
        and s = init and locs = None and u = init and start = "Some feb3_0800"
        and stop = "Some feb4_0800" and qlocs = None]
      unloaded_reader_failures [where d = bare_folder and srt = insertion_sort_index
        and s = init and locs = None and u = init and start = "Some feb3_0800"
        and stop = None and qlocs = None]
    by (auto simp add: recorded_locations_def init_def)
qed

subsection \<open>A directory that does not exist\<close>

text \<open>
  C5, as stated (discovery fails when the directory does not exist or is no directory, and
  never yields an empty file list then), fails: for a path that is no directory the
  discovery yields the empty list, and the only exception of \<open>batch_read\<close> is the
  \<^verbatim>\<open>ValueError\<close> of \<^verbatim>\<open>pd.concat\<close>.
\<close>

theorem missing_folder_discovery_counterexample:
  "entries missing_folder = None \<and>
   map stem (glob_csv missing_folder) = [] \<and>
   batch_read insertion_sort_index missing_folder init None None =
     (Inl ValueError, \<lparr>measurement_data = None, locations = Some []\<rparr>)"
  by (simp add: run_defs)

text \<open>
  C5, amended: when the configured directory does not exist or is not a directory, file
  discovery raises nothing and yields the empty file list; \<open>batch_read\<close> without file
  names then does what it does on an existing directory without CSV files: it fails with
  \<^verbatim>\<open>ValueError\<close> after assigning the location list.
\<close>

theorem missing_folder_discovery:
  assumes "entries d = None"
  shows "map stem (glob_csv d) = [] \<and>
         batch_read srt d s None locs =
           (Inl ValueError, s\<lparr>locations := Some (recorded_locations [] locs)\<rparr>) \<and>
         batch_read srt d s None locs = batch_read srt (d\<lparr>entries := Some []\<rparr>) s None locs"
proof -
  have g: "glob_csv d = []" "glob_csv (d\<lparr>entries := Some []\<rparr>) = []"
    using assms by (simp_all add: glob_csv_def)
  then have "sources d None = []" "sources (d\<lparr>entries := Some []\<rparr>) None = []"
    by (simp_all add: sources_def)
  then show ?thesis
    using g by (simp add: batch_read_no_sources)
qed

text \<open>
  The amended C5 on the missing folder, with a location list passed.
\<close>

theorem missing_folder_discovery_witness:
  "entries missing_folder = None \<and>
   map stem (glob_csv missing_folder) = [] \<and>
   batch_read insertion_sort_index missing_folder init None (Some [''x'']) =
     (Inl ValueError, \<lparr>measurement_data = None, locations = Some [''x'']\<rparr>)"
proof -
  have h: "entries missing_folder = None"
    by (simp add: missing_folder_def)
  show ?thesis
    using h missing_folder_discovery [OF h, of insertion_sort_index init "Some [''x'']"]
    by (auto simp add: recorded_locations_def init_def)
qed

subsection \<open>Number of records and recorded locations\<close>

text \<open>
  C8, as stated (N well-formed files of M rows give N times M records, and a supplied
  location list is recorded with length N), fails: \<^verbatim>\<open>B.csv\<close> and \<^verbatim>\<open>C.csv\<close> have one row
  each, and loading them with the locations \<^verbatim>\<open>['x']\<close> gives a table of one record and a
  location list of length one; and loading no file at all gives no table but a
  \<^verbatim>\<open>ValueError\<close>.
\<close>

theorem batch_read_row_count_counterexample:
  "has_rows site_folder 1 ''B'' \<and> has_rows site_folder 1 ''C'' \<and>
   batch_read insertion_sort_index site_folder init (Some [''B'', ''C'']) (Some [''x'']) =
     (Inr [row_B1\<lparr>location := ''x''\<rparr>],
      \<lparr>measurement_data = Some [row_B1\<lparr>location := ''x''\<rparr>], locations = Some [''x'']\<rparr>) \<and>
   batch_read insertion_sort_index site_folder init (Some []) None =
     (Inl ValueError, \<lparr>measurement_data = None, locations = Some []\<rparr>)"
  by (simp add: run_defs has_rows_def)

lemma has_rows_dated: "has_rows d m fn \<Longrightarrow> dated d fn"
  by (simp add: has_rows_def dated_def split: sum.splits)

lemma has_rows_frame: "has_rows d m (fst p) \<Longrightarrow> length (frame_of d p) = m"
  by (simp add: has_rows_def frame_of_def read_csv_def parse_dates_def split: sum.splits)

lemma length_concat_frames:
  "list_all (\<lambda>p. has_rows d m (fst p)) ps \<Longrightarrow>
   length (concat (map (frame_of d) ps)) = length ps * m"
  by (induction ps) (simp_all add: has_rows_frame)

lemma pairing_matched:
  assumes "case locs of Some (l # ls) \<Rightarrow> length (l # ls) = length fns | _ \<Rightarrow> True"
  shows "map fst (pairing fns locs) = fns"
proof (cases locs)
  case None
  then show ?thesis by (simp add: pairing_def comp_def)
next
  case (Some ls)
  show ?thesis
  proof (cases ls)
    case Nil
    with Some show ?thesis by (simp add: pairing_def comp_def)
  next
    case (Cons l ls')
    with Some assms have "length fns = length (map Some (l # ls'))" by simp
    then have "map fst (zip fns (map Some (l # ls'))) = fns"
      by (rule map_fst_zip)
    with Some Cons show ?thesis by (simp add: pairing_def)
  qed
qed

text \<open>
  C8, amended: for every \<open>batch_read\<close> of N files, N at least one, each well-formed
  with M rows, where the location list is absent, empty or of length N, the table has
  exactly N times M records, namely every parsed row with its multiplicity (nothing is
  deduplicated); and when a non-empty location list of length N is supplied, the
  locations stored are that list in the order supplied.
\<close>

theorem batch_read_row_count:
  assumes "sorts_by_index srt"
    and "sources d file_names \<noteq> []"
    and "list_all (has_rows d m) (sources d file_names)"
    and "case locs of
           Some (l # ls) \<Rightarrow> length (l # ls) = length (sources d file_names)
         | _ \<Rightarrow> True"
  shows "\<exists>t s'. batch_read srt d s file_names locs = (Inr t, s') \<and>
           length t = length (sources d file_names) * m \<and>
           mset t = mset (concat (map (frame_of d) (pairing (sources d file_names) locs))) \<and>
           measurement_data s' = Some t \<and>
           locations s' = Some (recorded_locations (sources d file_names) locs)"
proof -
  let ?fns = "sources d file_names"
  let ?ps = "pairing ?fns locs"
  let ?df = "concat (map (frame_of d) ?ps)"
  have fst_ps: "map fst ?ps = ?fns"
    by (rule pairing_matched [OF assms(4)])
  then have len: "length ?ps = length ?fns"
    by (metis length_map)
  from assms(3) have "list_all (has_rows d m) (map fst ?ps)"
    by (simp add: fst_ps)
  then have rows: "list_all (\<lambda>p. has_rows d m (fst p)) ?ps"
    by (simp add: list_all_iff)
  then have ok: "list_all (\<lambda>p. dated d (fst p)) ?ps"
    by (auto simp add: list_all_iff intro: has_rows_dated)
  from len assms(2) have ne: "?ps \<noteq> []"
    by auto
  from batch_read_dated [OF assms(1) ok ne, of s] have
    run: "batch_read srt d s file_names locs =
           (Inr (srt ?df),
            s\<lparr>measurement_data := Some (srt ?df),
               locations := Some (recorded_locations ?fns locs)\<rparr>)"
    and m: "mset (srt ?df) = mset ?df"
    by blast+
  from m have "length (srt ?df) = length ?df"
    by (rule mset_eq_length)
  then have "length (srt ?df) = length ?fns * m"
    by (simp add: length_concat_frames [OF rows] len)
  with m run show ?thesis
    by simp
qed

text \<open>
  The amended C8 on \<^verbatim>\<open>B.csv\<close> and \<^verbatim>\<open>C.csv\<close>, whose rows are equal, with two locations.
\<close>

theorem batch_read_row_count_witness:
  "list_all (has_rows site_folder 1) (sources site_folder (Some [''B'', ''C''])) \<and>
   batch_read insertion_sort_index site_folder init (Some [''B'', ''C'']) (Some [''x'', ''y'']) =
     (Inr [row_B1\<lparr>location := ''x''\<rparr>, row_B1\<lparr>location := ''y''\<rparr>],
      \<lparr>measurement_data = Some [row_B1\<lparr>location := ''x''\<rparr>, row_B1\<lparr>location := ''y''\<rparr>],
       locations = Some [''x'', ''y'']\<rparr>) \<and>
   length [row_B1\<lparr>location := ''x''\<rparr>, row_B1\<lparr>location := ''y''\<rparr>] =
     length (sources site_folder (Some [''B'', ''C''])) * 1"
proof -
  have h2: "sources site_folder (Some [''B'', ''C'']) \<noteq> []"
    by (simp add: sources_def)
  have h3: "list_all (has_rows site_folder 1) (sources site_folder (Some [''B'', ''C'']))"
    by (simp add: sources_def has_rows_def run_defs)
  have h4: "case Some [''x'', ''y''] of
           Some (l # ls) \<Rightarrow> length (l # ls) = length (sources site_folder (Some [''B'', ''C'']))
         | _ \<Rightarrow> True"
    by (simp add: sources_def)
  have run: "batch_read insertion_sort_index site_folder init (Some [''B'', ''C'']) (Some [''x'', ''y'']) =
     (Inr [row_B1\<lparr>location := ''x''\<rparr>, row_B1\<lparr>location := ''y''\<rparr>],
      \<lparr>measurement_data = Some [row_B1\<lparr>location := ''x''\<rparr>, row_B1\<lparr>location := ''y''\<rparr>],
       locations = Some [''x'', ''y'']\<rparr>)"
    by (simp add: run_defs)
  from batch_read_row_count [OF sorts_by_index_insertion_sort h2 h3 h4, of init]
  obtain t s' where
    "batch_read insertion_sort_index site_folder init (Some [''B'', ''C'']) (Some [''x'', ''y'']) = (Inr t, s')"
    and "length t = length (sources site_folder (Some [''B'', ''C''])) * 1"
    by blast
  with run h3 show ?thesis by simp
qed

subsection \<open>File list and location list of different lengths\<close>

text \<open>
  C10, as stated (for lists of different lengths no error is raised, only the paired files
  are read and the supplied location list is recorded), fails when one of the lists is
  empty: with files \<^verbatim>\<open>['A']\<close> and locations \<^verbatim>\<open>[]\<close> the file is read and \<^verbatim>\<open>['A']\<close> is
  recorded, and with files \<^verbatim>\<open>[]\<close> and locations \<^verbatim>\<open>['x']\<close> the call raises \<^verbatim>\<open>ValueError\<close>.
\<close>

theorem location_list_mismatch_counterexample:
  "batch_read insertion_sort_index site_folder init (Some [''A'']) (Some []) =
     (Inr [row_A1, row_A2],
      \<lparr>measurement_data = Some [row_A1, row_A2], locations = Some [''A'']\<rparr>) \<and>
   batch_read insertion_sort_index site_folder init (Some []) (Some [''x'']) =
     (Inl ValueError, \<lparr>measurement_data = None, locations = Some [''x'']\<rparr>)"
  by (simp add: run_defs)

lemma batch_read_pairs:
  assumes "fns \<noteq> []" and "locs \<noteq> []"
    and "list_all (dated d) (take (length locs) fns)"
  shows "batch_read srt d s (Some fns) (Some locs) =
           (Inr (srt (concat (map (frame_of d) (zip fns (map Some locs))))),
            s\<lparr>measurement_data :=
                 Some (srt (concat (map (frame_of d) (zip fns (map Some locs))))),
               locations := Some locs\<rparr>) \<and>
         length (zip fns (map Some locs)) = min (length fns) (length locs) \<and>
         map fst (zip fns (map Some locs)) = take (length locs) fns \<and>
         map snd (zip fns (map Some locs)) = map Some (take (length fns) locs)"
proof -
  let ?ps = "zip fns (map Some locs)"
  from assms(2) obtain l ls where locs: "locs = l # ls" by (cases locs) auto
  have pr: "pairing (sources d (Some fns)) (Some locs) = ?ps"
    by (simp add: pairing_def sources_def locs)
  have rl: "recorded_locations (sources d (Some fns)) (Some locs) = locs"
    by (simp add: recorded_locations_def locs)
  have f: "map fst ?ps = take (length locs) fns"
    by (simp add: map_fst_zip_take min_def)
  have g: "map snd ?ps = map Some (take (length fns) locs)"
    by (simp add: map_snd_zip_take min_def take_map)
  from assms(3) have "list_all (dated d) (map fst ?ps)"
    by (simp add: f)
  then have dt: "list_all (\<lambda>p. dated d (fst p)) ?ps"
    by (simp add: list_all_iff)
  then have ok: "list_all (\<lambda>p. readable d (fst p)) ?ps"
    by (auto simp add: list_all_iff intro: dated_readable)
  from assms(1) assms(2) have ne: "?ps \<noteq> []"
    by (cases fns; cases locs) simp_all
  from frames_dated [OF dt] have "comparable (map index (concat (map (frame_of d) ?ps)))"
    by (auto simp add: comparable_def)
  then have sf: "sort_frame srt (concat (map (frame_of d) ?ps)) =
      Inr (srt (concat (map (frame_of d) ?ps)))"
    by (simp add: sort_frame_def)
  have ok': "list_all (\<lambda>p. readable d (fst p)) (pairing (sources d (Some fns)) (Some locs))"
    unfolding pr by (rule ok)
  have ne': "pairing (sources d (Some fns)) (Some locs) \<noteq> []"
    unfolding pr by (rule ne)
  have sf': "sort_frame srt
      (concat (map (frame_of d) (pairing (sources d (Some fns)) (Some locs)))) =
      Inr (srt (concat (map (frame_of d) ?ps)))"
    unfolding pr by (rule sf)
  from batch_read_all_readable [OF ok' ne' sf', of s]
  have "batch_read srt d s (Some fns) (Some locs) =
           (Inr (srt (concat (map (frame_of d) ?ps))),
            s\<lparr>measurement_data := Some (srt (concat (map (frame_of d) ?ps))),
               locations := Some locs\<rparr>)"
    unfolding pr rl .
  with f g show ?thesis by simp
qed

text \<open>
  C10, amended: given a non-empty file list and a non-empty location list, of whatever
  lengths, \<open>batch_read\<close> raises no error for a mismatch: it pairs them positionally up
  to the length of the shorter list, reads only the paired files and, when these parse
  with a date in every line, returns their sorted concatenation and records the whole
  location list supplied. An empty location list is treated as an absent one, whatever
  the file names; and with an empty file list the call fails with \<^verbatim>\<open>ValueError\<close>, after
  assigning the location list.
\<close>

theorem batch_read_pairs_up_to_shorter:
  "(fns \<noteq> [] \<and> locs \<noteq> [] \<and> list_all (dated d) (take (length locs) fns) \<longrightarrow>
      batch_read srt d s (Some fns) (Some locs) =
        (Inr (srt (concat (map (frame_of d) (zip fns (map Some locs))))),
         s\<lparr>measurement_data :=
              Some (srt (concat (map (frame_of d) (zip fns (map Some locs))))),
            locations := Some locs\<rparr>) \<and>
      length (zip fns (map Some locs)) = min (length fns) (length locs) \<and>
      map fst (zip fns (map Some locs)) = take (length locs) fns \<and>
      map snd (zip fns (map Some locs)) = map Some (take (length fns) locs)) \<and>
   batch_read srt d s file_names (Some []) = batch_read srt d s file_names None \<and>
   batch_read srt d s (Some []) qlocs =
     (Inl ValueError, s\<lparr>locations := Some (recorded_locations [] qlocs)\<rparr>)"
proof -
  have absent: "batch_read srt d s file_names (Some []) = batch_read srt d s file_names None"
    by (simp add: batch_read_def)
  have "sources d (Some []) = []"
    by (simp add: sources_def)
  then have nofile: "batch_read srt d s (Some []) qlocs =
     (Inl ValueError, s\<lparr>locations := Some (recorded_locations [] qlocs)\<rparr>)"
    by (rule batch_read_no_sources)
  from batch_read_pairs [of fns locs d srt s] absent nofile show ?thesis
    by blast
qed

text \<open>
  The amended C10 with three files and two locations: \<^verbatim>\<open>E.csv\<close>, which does not exist, is
  beyond the pairs and is not read.
\<close>

theorem batch_read_pairs_up_to_shorter_witness:
  "list_all (dated site_folder) (take (length [''x'', ''y'']) [''A'', ''B'', ''E'']) \<and>
   \<not> readable site_folder ''E'' \<and>
   batch_read insertion_sort_index site_folder init (Some [''A'', ''B'', ''E''])
       (Some [''x'', ''y'']) =
     (Inr [row_A1\<lparr>location := ''x''\<rparr>, row_B1\<lparr>location := ''y''\<rparr>, row_A2\<lparr>location := ''x''\<rparr>],
      \<lparr>measurement_data =
         Some [row_A1\<lparr>location := ''x''\<rparr>, row_B1\<lparr>location := ''y''\<rparr>,
               row_A2\<lparr>location := ''x''\<rparr>],
       locations = Some [''x'', ''y'']\<rparr>)"
proof -
  have h3: "list_all (dated site_folder) (take (length [''x'', ''y'']) [''A'', ''B'', ''E''])"
    by (simp add: dated_def run_defs)
  have e: "\<not> readable site_folder ''E''"
    by (simp add: readable_def read_csv_def site_folder_def)
  have v: "insertion_sort_index (concat (map (frame_of site_folder)
             (zip [''A'', ''B'', ''E''] (map Some [''x'', ''y''])))) =
           [row_A1\<lparr>location := ''x''\<rparr>, row_B1\<lparr>location := ''y''\<rparr>, row_A2\<lparr>location := ''x''\<rparr>]"
    by (simp add: frame_of_def run_defs)
  from batch_read_pairs_up_to_shorter [where fns = "[''A'', ''B'', ''E'']"
      and locs = "[''x'', ''y'']" and d = site_folder and srt = insertion_sort_index
      and s = init and file_names = None and qlocs = None] h3
  have "batch_read insertion_sort_index site_folder init (Some [''A'', ''B'', ''E''])
       (Some [''x'', ''y'']) =
        (Inr (insertion_sort_index (concat (map (frame_of site_folder)
               (zip [''A'', ''B'', ''E''] (map Some [''x'', ''y'']))))),
         init\<lparr>measurement_data :=
              Some (insertion_sort_index (concat (map (frame_of site_folder)
               (zip [''A'', ''B'', ''E''] (map Some [''x'', ''y'']))))),
            locations := Some [''x'', ''y'']\<rparr>)"
    by blast
  with h3 e show ?thesis
    unfolding v by (simp add: init_def)
qed

end
